theory Spec2Isabelle
  imports Complex_Main "HOL-Library.AList"
begin

section \<open>Data model\<close>

text \<open>
  The server stores and relays coordinates, colours, widths and tool names without ever
  computing on them. A JavaScript number is modelled as a real, a JavaScript string as a
  \<open>string\<close>. A JavaScript \<open>Map\<close> keeps its keys in insertion order, \<open>set\<close> on a
  present key replaces the value in place and \<open>set\<close> on a new key appends: this is an
  association list under \<open>AList.update\<close>, \<open>AList.delete\<close> and \<open>map_of\<close>.
\<close>

record point =
  x :: real
  y :: real

text \<open>
  The value of the in-flight table (server.js, \<open>draw_start\<close>):
  \<open>{ points, color, width, tool, authorId, authorName, authorColor }\<close>.
\<close>

record stroke =
  points :: "point list"
  color :: string
  width :: real
  tool :: string
  authorId :: string
  authorName :: string
  authorColor :: string

text \<open>
  The object literal that \<open>draw_end\<close> builds from a stroke has the stroke's seven
  properties and \<open>id\<close>; \<open>addCommand\<close> then assigns \<open>undone\<close> and \<open>timestamp\<close> to it.
  The field \<open>id\<close> is named \<open>id_cmd\<close> here (\<open>id\<close> is the identity function of HOL).
\<close>

record stroke_command = stroke +
  id_cmd :: string

record command = stroke_command +
  undone :: bool
  timestamp :: nat

text \<open>The value \<open>{ action, commandId }\<close> returned by \<open>undo\<close> and \<open>redo\<close>.\<close>

record undo_result =
  action :: string
  commandId :: string

section \<open>drawing-state.js\<close>

record DrawingState =
  commandLog :: "command list"
  commandIndex :: "(string \<times> nat) list"

definition new_DrawingState :: DrawingState where
  "new_DrawingState = \<lparr>commandLog = [], commandIndex = []\<rparr>"

text \<open>
  \<open>addCommand(command)\<close>: assigns \<open>undone = false\<close> and \<open>timestamp = Date.now()\<close> to the
  object, indexes its id at the current length of the log, pushes it and returns it. The
  clock reading is the parameter \<open>now\<close>. There is no check of the id against the index.
\<close>

definition addCommand :: "nat \<Rightarrow> stroke_command \<Rightarrow> DrawingState \<Rightarrow> command \<times> DrawingState" where
  "addCommand now c ds =
     (let cmd = \<lparr>points = points c, color = color c, width = width c, tool = tool c,
                 authorId = authorId c, authorName = authorName c, authorColor = authorColor c,
                 id_cmd = id_cmd c, undone = False, timestamp = now\<rparr>
      in (cmd, \<lparr>commandLog = commandLog ds @ [cmd],
                commandIndex = AList.update (id_cmd c) (length (commandLog ds)) (commandIndex ds)\<rparr>))"

text \<open>
  \<open>undo()\<close>: \<open>for (let i = length - 1; i >= 0; i--)\<close>. The first argument of \<open>undo_loop\<close>
  is \<open>i + 1\<close>, so that the exit \<open>i = -1\<close> is \<open>0\<close>. At the first index whose entry is not
  undone the entry's flag is set and the loop returns; falling out of the loop returns
  \<open>null\<close>.
\<close>

fun undo_loop :: "nat \<Rightarrow> command list \<Rightarrow> undo_result option \<times> command list" where
  "undo_loop 0 cmds = (None, cmds)"
| "undo_loop (Suc i) cmds =
     (if \<not> undone (cmds ! i)
      then (Some \<lparr>action = ''undo'', commandId = id_cmd (cmds ! i)\<rparr>,
            cmds[i := (cmds ! i)\<lparr>undone := True\<rparr>])
      else undo_loop i cmds)"

definition undo :: "DrawingState \<Rightarrow> undo_result option \<times> DrawingState" where
  "undo ds =
     (case undo_loop (length (commandLog ds)) (commandLog ds) of
        (r, cmds) \<Rightarrow> (r, ds\<lparr>commandLog := cmds\<rparr>))"

text \<open>\<open>redo()\<close>: the same scan for the first entry from the end that is undone.\<close>

fun redo_loop :: "nat \<Rightarrow> command list \<Rightarrow> undo_result option \<times> command list" where
  "redo_loop 0 cmds = (None, cmds)"
| "redo_loop (Suc i) cmds =
     (if undone (cmds ! i)
      then (Some \<lparr>action = ''redo'', commandId = id_cmd (cmds ! i)\<rparr>,
            cmds[i := (cmds ! i)\<lparr>undone := False\<rparr>])
      else redo_loop i cmds)"

definition redo :: "DrawingState \<Rightarrow> undo_result option \<times> DrawingState" where
  "redo ds =
     (case redo_loop (length (commandLog ds)) (commandLog ds) of
        (r, cmds) \<Rightarrow> (r, ds\<lparr>commandLog := cmds\<rparr>))"

definition getFullState :: "DrawingState \<Rightarrow> command list" where
  "getFullState ds = commandLog ds"

definition getActiveCommands :: "DrawingState \<Rightarrow> command list" where
  "getActiveCommands ds = filter (\<lambda>cmd. \<not> undone cmd) (commandLog ds)"

section \<open>rooms.js\<close>

text \<open>A user \<open>{ id, name, color, socketId }\<close>; \<open>id\<close> and \<open>color\<close> carry a suffix here.\<close>

record user =
  id_user :: string
  name :: string
  color_user :: string
  socketId :: string

text \<open>An element of \<open>getUserList()\<close>: \<open>{ id, name, color }\<close>, the user without its socket id.\<close>

record user_info =
  id_info :: string
  name_info :: string
  color_info :: string

definition USER_COLORS :: "string list" where
  "USER_COLORS = [''#e74c3c'', ''#3498db'', ''#2ecc71'', ''#f39c12'', ''#9b59b6'',
                  ''#1abc9c'', ''#e67e22'', ''#e91e63'', ''#00bcd4'', ''#ff5722'']"

record Room =
  id_room :: string
  users :: "(string \<times> user) list"
  drawingState :: DrawingState
  colorIndex :: nat

definition new_Room :: "string \<Rightarrow> Room" where
  "new_Room roomId =
     \<lparr>id_room = roomId, users = [], drawingState = new_DrawingState, colorIndex = 0\<rparr>"

text \<open>The decimal numeral that a template literal prints for a count.\<close>

fun string_of_nat :: "nat \<Rightarrow> string" where
  "string_of_nat n =
     (if n < 10 then [char_of (48 + n)]
      else string_of_nat (n div 10) @ [char_of (48 + n mod 10)])"

declare string_of_nat.simps [simp del]

text \<open>
  \<open>addUser(socketId, name)\<close>. The fresh identifier \<open>uuidv4()\<close> is the parameter \<open>uuid\<close>.
  An empty name is falsy and replaced by \<open>User n\<close>.
\<close>

definition addUser :: "string \<Rightarrow> string \<Rightarrow> string \<Rightarrow> Room \<Rightarrow> user \<times> Room" where
  "addUser uuid sid nm room =
     (let u = \<lparr>id_user = uuid,
               name = (if nm = [] then ''User '' @ string_of_nat (length (users room) + 1) else nm),
               color_user = USER_COLORS ! (colorIndex room mod length USER_COLORS),
               socketId = sid\<rparr>
      in (u, room\<lparr>users := AList.update sid u (users room),
                  colorIndex := colorIndex room + 1\<rparr>))"

definition removeUser :: "string \<Rightarrow> Room \<Rightarrow> user option \<times> Room" where
  "removeUser sid room =
     (map_of (users room) sid, room\<lparr>users := AList.delete sid (users room)\<rparr>)"

definition getUserList :: "Room \<Rightarrow> user_info list" where
  "getUserList room =
     map (\<lambda>(k, u). \<lparr>id_info = id_user u, name_info = name u, color_info = color_user u\<rparr>)
       (users room)"

definition isEmpty :: "Room \<Rightarrow> bool" where
  "isEmpty room = (length (users room) = 0)"

definition getUser :: "string \<Rightarrow> Room \<Rightarrow> user option" where
  "getUser sid room = map_of (users room) sid"

text \<open>
  \<open>RoomManager\<close> is the map \<open>rooms\<close>. A room object is shared by reference in the source;
  here a handler that changes a room writes it back under its key, which keeps its place.
\<close>

definition getOrCreateRoom :: "string \<Rightarrow> (string \<times> Room) list \<Rightarrow> Room \<times> (string \<times> Room) list" where
  "getOrCreateRoom roomId rms =
     (case map_of rms roomId of
        None \<Rightarrow> (new_Room roomId, AList.update roomId (new_Room roomId) rms)
      | Some room \<Rightarrow> (room, rms))"

definition deleteRoom :: "string \<Rightarrow> (string \<times> Room) list \<Rightarrow> (string \<times> Room) list" where
  "deleteRoom roomId rms = AList.delete roomId rms"

definition hasRoom :: "string \<Rightarrow> (string \<times> Room) list \<Rightarrow> bool" where
  "hasRoom roomId rms = (map_of rms roomId \<noteq> None)"

section \<open>server.js\<close>

text \<open>
  Each handler is a function from the connection's closure variables, the payload and
  the shared state to the new state and the messages sent, in order. A payload field is
  of the type the event protocol gives it, or absent where the handler provides for
  that. Calls of \<open>console.log\<close> and \<open>console.error\<close> change neither and are left out.
\<close>

text \<open>
  What a handler sends. \<open>socket.emit\<close> addresses the handler's own connection,
  \<open>socket.to(room).emit\<close> every connection of the socket.io room but the handler's own,
  \<open>io.to(room).emit\<close> every connection of the socket.io room.
\<close>

datatype target =
  ToSocket string
| ToOthers string string
| ToAll string

datatype event =
  Error_ev string
| Room_state "user_info list" "command list" user
| User_joined user_info
| User_left string
| Draw_start string "point list option" string real string string string
| Draw_continue string "point list"
| Draw_end string command
| Cursor_move string string string real real
| Undo_ev undo_result
| Redo_ev undo_result

type_synonym emission = "target \<times> event"

text \<open>
  The state shared by all connections: the room manager's map, the table
  \<open>inFlightStrokes\<close> (room id to stroke id to stroke) and the socket.io room membership
  that \<open>socket.join\<close> and \<open>socket.leave\<close> change, as pairs of socket id and room id.
\<close>

record server =
  rooms :: "(string \<times> Room) list"
  inFlightStrokes :: "(string \<times> (string \<times> stroke) list) list"
  membership :: "(string \<times> string) list"

text \<open>
  The state of one connection: the socket id and the closure variables \<open>currentRoom\<close> and
  \<open>currentUser\<close>, \<open>None\<close> for \<open>null\<close>.
\<close>

record conn =
  socket_id :: string
  currentRoom :: "string option"
  currentUser :: "user option"

definition getInFlightForRoom ::
  "string \<Rightarrow> (string \<times> (string \<times> stroke) list) list
     \<Rightarrow> (string \<times> stroke) list \<times> (string \<times> (string \<times> stroke) list) list" where
  "getInFlightForRoom roomId inflight =
     (case map_of inflight roomId of
        None \<Rightarrow> ([], AList.update roomId [] inflight)
      | Some m \<Rightarrow> (m, inflight))"

text \<open>
  \<open>if (!currentRoom || !currentUser) return;\<close> and \<open>if (!currentRoom) return;\<close>. The empty
  string is falsy like \<open>null\<close>; a user object is truthy.
\<close>

definition guard_room_user :: "conn \<Rightarrow> 'a \<Rightarrow> (string \<Rightarrow> user \<Rightarrow> 'a) \<Rightarrow> 'a" where
  "guard_room_user c ret body =
     (case currentRoom c of
        None \<Rightarrow> ret
      | Some r \<Rightarrow>
          if r = [] then ret
          else (case currentUser c of None \<Rightarrow> ret | Some u \<Rightarrow> body r u))"

definition guard_room :: "conn \<Rightarrow> 'a \<Rightarrow> (string \<Rightarrow> 'a) \<Rightarrow> 'a" where
  "guard_room c ret body =
     (case currentRoom c of
        None \<Rightarrow> ret
      | Some r \<Rightarrow> if r = [] then ret else body r)"

text \<open>
  \<open>join_room\<close> with payload \<open>{ roomId, userName }\<close>, each a string or absent (\<open>None\<close>).
  A previous room is left with \<open>socket.leave\<close> only. The handler assigns \<open>currentUser\<close>
  and \<open>currentRoom\<close>, so it returns the connection too.
\<close>

definition on_join_room ::
  "string \<Rightarrow> conn \<Rightarrow> string option \<Rightarrow> string option \<Rightarrow> server \<Rightarrow> conn \<times> server \<times> emission list" where
  "on_join_room uuid c roomId userName s =
     (case roomId of
        None \<Rightarrow> (c, s, [(ToSocket (socket_id c), Error_ev ''Invalid room ID'')])
      | Some rid \<Rightarrow>
          if rid = [] then (c, s, [(ToSocket (socket_id c), Error_ev ''Invalid room ID'')])
          else
            (let sliced = take 30 (case userName of None \<Rightarrow> [] | Some n \<Rightarrow> n);
                 safeName = (if sliced = [] then ''Anonymous'' else sliced);
                 left = guard_room c (membership s)
                          (\<lambda>r. removeAll (socket_id c, r) (membership s));
                 (room, rms) = getOrCreateRoom rid (rooms s);
                 (u, room') = addUser uuid (socket_id c) safeName room
             in (c\<lparr>currentRoom := Some rid, currentUser := Some u\<rparr>,
                 s\<lparr>rooms := AList.update rid room' rms,
                   membership := List.insert (socket_id c, rid) left\<rparr>,
                 [(ToSocket (socket_id c),
                     Room_state (getUserList room') (getFullState (drawingState room')) u),
                  (ToOthers rid (socket_id c),
                     User_joined \<lparr>id_info = id_user u, name_info = name u,
                                  color_info = color_user u\<rparr>)])))"

text \<open>
  \<open>draw_start\<close> with payload \<open>{ strokeId, points, color, width, tool }\<close>; \<open>points\<close> may be
  absent (\<open>points || []\<close>). The entry is stored with \<open>Map.set\<close>.
\<close>

definition on_draw_start ::
  "conn \<Rightarrow> string \<Rightarrow> point list option \<Rightarrow> string \<Rightarrow> real \<Rightarrow> string \<Rightarrow> server
     \<Rightarrow> server \<times> emission list" where
  "on_draw_start c strokeId pts col w tl' s =
     guard_room_user c (s, [])
       (\<lambda>r u.
          let (roomFlights, inflight) = getInFlightForRoom r (inFlightStrokes s);
              st = \<lparr>points = (case pts of None \<Rightarrow> [] | Some ps \<Rightarrow> ps),
                    color = col, width = w, tool = tl',
                    authorId = id_user u, authorName = name u, authorColor = color_user u\<rparr>
          in (s\<lparr>inFlightStrokes := AList.update r (AList.update strokeId st roomFlights) inflight\<rparr>,
              [(ToOthers r (socket_id c),
                  Draw_start strokeId pts col w tl' (id_user u) (color_user u))]))"

text \<open>
  \<open>draw_continue\<close> with payload \<open>{ strokeId, points }\<close>. Spreading an absent \<open>points\<close>
  throws inside the \<open>try\<close>: nothing is appended and nothing relayed.
\<close>

definition on_draw_continue ::
  "conn \<Rightarrow> string \<Rightarrow> point list option \<Rightarrow> server \<Rightarrow> server \<times> emission list" where
  "on_draw_continue c strokeId pts s =
     guard_room_user c (s, [])
       (\<lambda>r u.
          let (roomFlights, inflight) = getInFlightForRoom r (inFlightStrokes s)
          in (case map_of roomFlights strokeId of
                None \<Rightarrow> (s\<lparr>inFlightStrokes := inflight\<rparr>, [])
              | Some st \<Rightarrow>
                  (case pts of
                     None \<Rightarrow> (s\<lparr>inFlightStrokes := inflight\<rparr>, [])
                   | Some ps \<Rightarrow>
                       (s\<lparr>inFlightStrokes :=
                            AList.update r
                              (AList.update strokeId (st\<lparr>points := points st @ ps\<rparr>) roomFlights)
                              inflight\<rparr>,
                        [(ToOthers r (socket_id c), Draw_continue strokeId ps)]))))"

text \<open>\<open>draw_end\<close> with payload \<open>{ strokeId }\<close>; \<open>now\<close> is the clock reading of \<open>addCommand\<close>.\<close>

definition on_draw_end :: "nat \<Rightarrow> conn \<Rightarrow> string \<Rightarrow> server \<Rightarrow> server \<times> emission list" where
  "on_draw_end now c strokeId s =
     guard_room_user c (s, [])
       (\<lambda>r u.
          let (roomFlights, inflight) = getInFlightForRoom r (inFlightStrokes s)
          in (case map_of roomFlights strokeId of
                None \<Rightarrow> (s\<lparr>inFlightStrokes := inflight\<rparr>, [])
              | Some st \<Rightarrow>
                  (let command = \<lparr>points = points st, color = color st, width = width st,
                                  tool = tool st, authorId = authorId st,
                                  authorName = authorName st, authorColor = authorColor st,
                                  id_cmd = strokeId\<rparr>;
                       (room, rms) = getOrCreateRoom r (rooms s);
                       (cmd, ds) = addCommand now command (drawingState room)
                   in (s\<lparr>rooms := AList.update r (room\<lparr>drawingState := ds\<rparr>) rms,
                         inFlightStrokes :=
                           AList.update r (AList.delete strokeId roomFlights) inflight\<rparr>,
                       [(ToAll r, Draw_end strokeId cmd)]))))"

definition on_cursor_move :: "conn \<Rightarrow> real \<Rightarrow> real \<Rightarrow> server \<Rightarrow> server \<times> emission list" where
  "on_cursor_move c cx cy s =
     guard_room_user c (s, [])
       (\<lambda>r u. (s, [(ToOthers r (socket_id c),
                     Cursor_move (id_user u) (name u) (color_user u) cx cy)]))"

definition on_undo :: "conn \<Rightarrow> server \<Rightarrow> server \<times> emission list" where
  "on_undo c s =
     guard_room c (s, [])
       (\<lambda>r. let (room, rms) = getOrCreateRoom r (rooms s);
                 (result, ds) = undo (drawingState room);
                 s' = s\<lparr>rooms := AList.update r (room\<lparr>drawingState := ds\<rparr>) rms\<rparr>
             in (case result of
                   Some res \<Rightarrow> (s', [(ToAll r, Undo_ev res)])
                 | None \<Rightarrow> (s', [(ToSocket (socket_id c), Error_ev ''Nothing to undo'')])))"

definition on_redo :: "conn \<Rightarrow> server \<Rightarrow> server \<times> emission list" where
  "on_redo c s =
     guard_room c (s, [])
       (\<lambda>r. let (room, rms) = getOrCreateRoom r (rooms s);
                 (result, ds) = redo (drawingState room);
                 s' = s\<lparr>rooms := AList.update r (room\<lparr>drawingState := ds\<rparr>) rms\<rparr>
             in (case result of
                   Some res \<Rightarrow> (s', [(ToAll r, Redo_ev res)])
                 | None \<Rightarrow> (s', [(ToSocket (socket_id c), Error_ev ''Nothing to redo'')])))"

text \<open>
  The clean-up loop of \<open>disconnect\<close>: \<open>for (const [strokeId, stroke] of roomFlights)\<close>
  deletes the key of every entry whose \<open>authorId\<close> is the removed user's id. With no
  removed user the comparison is against \<open>null\<close> and deletes nothing. The handler does
  not call \<open>socket.leave\<close>, so it leaves \<open>membership\<close> as it is.
\<close>

definition discard_strokes :: "user option \<Rightarrow> (string \<times> stroke) list \<Rightarrow> (string \<times> stroke) list" where
  "discard_strokes removedUser roomFlights =
     (case removedUser of
        None \<Rightarrow> roomFlights
      | Some u \<Rightarrow>
          foldl (\<lambda>m (strokeId, st). if authorId st = id_user u then AList.delete strokeId m else m)
            roomFlights roomFlights)"

definition on_disconnect :: "conn \<Rightarrow> server \<Rightarrow> server \<times> emission list" where
  "on_disconnect c s =
     guard_room c (s, [])
       (\<lambda>r. let (room, rms) = getOrCreateRoom r (rooms s);
                 (removedUser, room') = removeUser (socket_id c) room;
                 rms' = AList.update r room' rms;
                 out = (case removedUser of
                          None \<Rightarrow> []
                        | Some u \<Rightarrow> [(ToOthers r (socket_id c), User_left (id_user u))]);
                 (roomFlights, inflight) = getInFlightForRoom r (inFlightStrokes s);
                 inflight' = AList.update r (discard_strokes removedUser roomFlights) inflight
             in if isEmpty room'
                then (s\<lparr>rooms := deleteRoom r rms', inFlightStrokes := AList.delete r inflight'\<rparr>, out)
                else (s\<lparr>rooms := rms', inFlightStrokes := inflight'\<rparr>, out))"

section \<open>Sequences of log operations and example values\<close>

text \<open>
  A history of one command log: the calls \<open>addCommand\<close>, \<open>undo\<close> and \<open>redo\<close> that the
  handlers make on the \<open>DrawingState\<close> of one room, in arrival order, on a new log.
  \<open>appended\<close> lists the arguments of the \<open>addCommand\<close> calls of a history, in call order.
\<close>

datatype log_op = Append nat stroke_command | Undo | Redo

fun apply_op :: "DrawingState \<Rightarrow> log_op \<Rightarrow> DrawingState" where
  "apply_op ds (Append now c) = snd (addCommand now c ds)"
| "apply_op ds Undo = snd (undo ds)"
| "apply_op ds Redo = snd (redo ds)"

definition run_ops :: "log_op list \<Rightarrow> DrawingState" where
  "run_ops ops = foldl apply_op new_DrawingState ops"

fun appended :: "log_op list \<Rightarrow> (nat \<times> stroke_command) list" where
  "appended [] = []"
| "appended (Append now c # ops) = (now, c) # appended ops"
| "appended (Undo # ops) = appended ops"
| "appended (Redo # ops) = appended ops"

text \<open>
  A stroke of two points under a given id, and the log after committing the strokes
  \<open>a\<close> and \<open>b\<close> and one undo: \<open>a\<close> is active, \<open>b\<close> is undone.
\<close>

definition ex_cmd :: "string \<Rightarrow> stroke_command" where
  "ex_cmd k = \<lparr>points = [\<lparr>x = 0, y = 0\<rparr>, \<lparr>x = 1, y = 1\<rparr>], color = ''#000000'', width = 2,
              tool = ''brush'', authorId = ''u1'', authorName = ''Ann'',
              authorColor = ''#e74c3c'', id_cmd = k\<rparr>"

definition ex_log :: DrawingState where
  "ex_log = snd (undo (snd (addCommand 2 (ex_cmd ''b'')
                  (snd (addCommand 1 (ex_cmd ''a'') new_DrawingState)))))"

section \<open>A drawing gesture\<close>

text \<open>
  The server after one connection has sent \<open>draw_start\<close> for the stroke \<open>k\<close> and then one
  \<open>draw_continue\<close> for \<open>k\<close> with each element of \<open>pss\<close>, in order.
\<close>

definition draw_gesture ::
  "conn \<Rightarrow> string \<Rightarrow> point list option \<Rightarrow> string \<Rightarrow> real \<Rightarrow> string \<Rightarrow> point list list \<Rightarrow> server
     \<Rightarrow> server" where
  "draw_gesture c k pts col w t pss s =
     foldl (\<lambda>s' ps. fst (on_draw_continue c k (Some ps) s'))
       (fst (on_draw_start c k pts col w t s)) pss"

section \<open>Example connections and server states\<close>

text \<open>
  The server at process start, and a connection \<open>s1\<close> that joins room \<open>r1\<close> and then,
  still joined, room \<open>r2\<close>; \<open>u1\<close> and \<open>u2\<close> are the identifiers drawn for its two users.
\<close>

definition new_server :: server where
  "new_server = \<lparr>rooms = [], inFlightStrokes = [], membership = []\<rparr>"

definition ex_join1 :: "conn \<times> server \<times> emission list" where
  "ex_join1 = on_join_room ''u1'' \<lparr>socket_id = ''s1'', currentRoom = None, currentUser = None\<rparr>
                (Some ''r1'') (Some ''Ann'') new_server"

definition ex_join2 :: "conn \<times> server \<times> emission list" where
  "ex_join2 = on_join_room ''u2'' (fst ex_join1) (Some ''r2'') (Some ''Ann'') (fst (snd ex_join1))"

text \<open>
  The connection after its first join draws the stroke \<open>k\<close>: a start with one point, a
  continuation with two points, the end.
\<close>

definition ex_started :: server where
  "ex_started = fst (on_draw_start (fst ex_join1) ''k'' (Some [\<lparr>x = 0, y = 0\<rparr>])
                       ''#000000'' 2 ''brush'' (fst (snd ex_join1)))"

definition ex_continued :: server where
  "ex_continued = fst (on_draw_continue (fst ex_join1) ''k''
                         (Some [\<lparr>x = 1, y = 1\<rparr>, \<lparr>x = 2, y = 3\<rparr>]) ex_started)"

definition ex_committed :: server where
  "ex_committed = fst (on_draw_end 5 (fst ex_join1) ''k'' ex_continued)"

text \<open>
  After the commit a second connection \<open>s2\<close> joins \<open>r1\<close>; then \<open>s1\<close> starts the stroke
  \<open>m\<close> and \<open>s2\<close> the stroke \<open>n\<close>, neither ended.
\<close>

definition ex_two_users :: server where
  "ex_two_users =
     fst (on_draw_start
            (fst (on_join_room ''u3'' \<lparr>socket_id = ''s2'', currentRoom = None, currentUser = None\<rparr>
                    (Some ''r1'') (Some ''Bob'') ex_committed))
            ''n'' (Some [\<lparr>x = 7, y = 7\<rparr>]) ''#111111'' 1 ''brush''
            (fst (on_draw_start (fst ex_join1) ''m'' (Some [\<lparr>x = 5, y = 5\<rparr>]) ''#000000'' 2 ''brush''
                    (fst (snd (on_join_room ''u3''
                                 \<lparr>socket_id = ''s2'', currentRoom = None, currentUser = None\<rparr>
                                 (Some ''r1'') (Some ''Bob'') ex_committed))))))"

section \<open>The command log\<close>

subsection \<open>The scans of undo and redo\<close>

lemma undo_loop_length: "length (snd (undo_loop n cmds)) = length cmds"
  by (induction n) auto

lemma undo_loop_None_iff: "fst (undo_loop n cmds) = None \<longleftrightarrow> (\<forall>j<n. undone (cmds ! j))"
  by (induction n) (auto simp: less_Suc_eq)

lemma undo_loop_None_same: "fst (undo_loop n cmds) = None \<Longrightarrow> snd (undo_loop n cmds) = cmds"
  by (induction n) (auto split: if_splits)

lemma undo_loop_found:
  "i < n \<Longrightarrow> \<not> undone (cmds ! i) \<Longrightarrow> (\<forall>j. i < j \<and> j < n \<longrightarrow> undone (cmds ! j)) \<Longrightarrow>
   undo_loop n cmds = (Some \<lparr>action = ''undo'', commandId = id_cmd (cmds ! i)\<rparr>,
                        cmds[i := (cmds ! i)\<lparr>undone := True\<rparr>])"
proof (induction n)
  case 0
  then show ?case by simp
next
  case (Suc n)
  show ?case
  proof (cases "i = n")
    case True
    with Suc.prems show ?thesis by simp
  next
    case False
    with Suc.prems have "i < n" and "undone (cmds ! n)" by auto
    with Suc show ?thesis by simp
  qed
qed

lemma redo_loop_length: "length (snd (redo_loop n cmds)) = length cmds"
  by (induction n) auto

lemma redo_loop_None_iff: "fst (redo_loop n cmds) = None \<longleftrightarrow> (\<forall>j<n. \<not> undone (cmds ! j))"
  by (induction n) (auto simp: less_Suc_eq)

lemma redo_loop_None_same: "fst (redo_loop n cmds) = None \<Longrightarrow> snd (redo_loop n cmds) = cmds"
  by (induction n) (auto split: if_splits)

lemma redo_loop_found:
  "i < n \<Longrightarrow> undone (cmds ! i) \<Longrightarrow> (\<forall>j. i < j \<and> j < n \<longrightarrow> \<not> undone (cmds ! j)) \<Longrightarrow>
   redo_loop n cmds = (Some \<lparr>action = ''redo'', commandId = id_cmd (cmds ! i)\<rparr>,
                        cmds[i := (cmds ! i)\<lparr>undone := False\<rparr>])"
proof (induction n)
  case 0
  then show ?case by simp
next
  case (Suc n)
  show ?case
  proof (cases "i = n")
    case True
    with Suc.prems show ?thesis by simp
  next
    case False
    with Suc.prems have "i < n" and "\<not> undone (cmds ! n)" by auto
    with Suc show ?thesis by simp
  qed
qed

lemma nth_after_prefix:
  assumes "list_all P post" "length pre < j" "j < length (pre @ c # post)"
  shows "P ((pre @ c # post) ! j)"
proof -
  from assms(2,3) have "j - length pre - 1 < length post" by simp
  with assms(1) have "P (post ! (j - length pre - 1))" by (simp add: list_all_length)
  moreover from assms(2) have "(pre @ c # post) ! j = post ! (j - length pre - 1)"
    by (simp add: nth_append nth_Cons')
  ultimately show ?thesis by simp
qed

lemma undo_loop_decomp:
  assumes "\<not> undone c" "list_all undone post"
  shows "undo_loop (length (pre @ c # post)) (pre @ c # post) =
           (Some \<lparr>action = ''undo'', commandId = id_cmd c\<rparr>, pre @ c\<lparr>undone := True\<rparr> # post)"
proof -
  have "\<forall>j. length pre < j \<and> j < length (pre @ c # post) \<longrightarrow> undone ((pre @ c # post) ! j)"
    using nth_after_prefix [OF assms(2)] by blast
  from undo_loop_found [OF _ _ this] assms(1) show ?thesis by simp
qed

lemma redo_loop_decomp:
  assumes "undone c" "list_all (\<lambda>d. \<not> undone d) post"
  shows "redo_loop (length (pre @ c # post)) (pre @ c # post) =
           (Some \<lparr>action = ''redo'', commandId = id_cmd c\<rparr>, pre @ c\<lparr>undone := False\<rparr> # post)"
proof -
  have "\<forall>j. length pre < j \<and> j < length (pre @ c # post) \<longrightarrow> \<not> undone ((pre @ c # post) ! j)"
    using nth_after_prefix [OF assms(2)] by blast
  from redo_loop_found [OF _ _ this] assms(1) show ?thesis by simp
qed

lemma ex_log_value:
  "ex_log = \<lparr>commandLog =
               [\<lparr>points = [\<lparr>x = 0, y = 0\<rparr>, \<lparr>x = 1, y = 1\<rparr>], color = ''#000000'', width = 2,
                 tool = ''brush'', authorId = ''u1'', authorName = ''Ann'',
                 authorColor = ''#e74c3c'', id_cmd = ''a'', undone = False, timestamp = 1\<rparr>,
                \<lparr>points = [\<lparr>x = 0, y = 0\<rparr>, \<lparr>x = 1, y = 1\<rparr>], color = ''#000000'', width = 2,
                 tool = ''brush'', authorId = ''u1'', authorName = ''Ann'',
                 authorColor = ''#e74c3c'', id_cmd = ''b'', undone = True, timestamp = 2\<rparr>],
             commandIndex = [(''a'', 0), (''b'', 1)]\<rparr>"
  by (simp add: ex_log_def ex_cmd_def addCommand_def undo_def new_DrawingState_def Let_def
      numeral_2_eq_2)

text \<open>
  Claim C5. \<open>undo\<close> returns \<open>null\<close> exactly when every entry of the log is undone (the
  empty log included) and then leaves the log as it is; otherwise, with \<open>c\<close> the last
  entry that is not undone (every entry of \<open>post\<close> behind it is undone), it sets the flag
  of \<open>c\<close> and of no other entry and returns the id of \<open>c\<close>. \<open>redo\<close> returns \<open>null\<close>
  exactly when no entry is undone; otherwise it clears the flag of the last undone
  entry and returns its id.
\<close>

theorem undo_redo_spec:
  "(fst (undo ds) = None \<longleftrightarrow> list_all undone (commandLog ds))
   \<and> (fst (undo ds) = None \<longrightarrow> snd (undo ds) = ds)
   \<and> (commandLog ds = pre @ c # post \<and> \<not> undone c \<and> list_all undone post
        \<longrightarrow> undo ds = (Some \<lparr>action = ''undo'', commandId = id_cmd c\<rparr>,
                       ds\<lparr>commandLog := pre @ c\<lparr>undone := True\<rparr> # post\<rparr>))
   \<and> (fst (redo ds) = None \<longleftrightarrow> list_all (\<lambda>d. \<not> undone d) (commandLog ds))
   \<and> (fst (redo ds) = None \<longrightarrow> snd (redo ds) = ds)
   \<and> (commandLog ds = pre' @ c' # post' \<and> undone c' \<and> list_all (\<lambda>d. \<not> undone d) post'
        \<longrightarrow> redo ds = (Some \<lparr>action = ''redo'', commandId = id_cmd c'\<rparr>,
                       ds\<lparr>commandLog := pre' @ c'\<lparr>undone := False\<rparr> # post'\<rparr>))"
proof -
  let ?n = "length (commandLog ds)"
  have u1: "fst (undo ds) = None \<longleftrightarrow> list_all undone (commandLog ds)"
    using undo_loop_None_iff [of ?n "commandLog ds"]
    by (simp add: undo_def split_beta list_all_length)
  have u2: "fst (undo ds) = None \<longrightarrow> snd (undo ds) = ds"
    using undo_loop_None_same [of ?n "commandLog ds"]
    by (simp add: undo_def split_beta)
  have u3: "commandLog ds = pre @ c # post \<and> \<not> undone c \<and> list_all undone post
        \<longrightarrow> undo ds = (Some \<lparr>action = ''undo'', commandId = id_cmd c\<rparr>,
                       ds\<lparr>commandLog := pre @ c\<lparr>undone := True\<rparr> # post\<rparr>)"
    using undo_loop_decomp [of c post pre] by (simp add: undo_def)
  have r1: "fst (redo ds) = None \<longleftrightarrow> list_all (\<lambda>d. \<not> undone d) (commandLog ds)"
    using redo_loop_None_iff [of ?n "commandLog ds"]
    by (simp add: redo_def split_beta list_all_length)
  have r2: "fst (redo ds) = None \<longrightarrow> snd (redo ds) = ds"
    using redo_loop_None_same [of ?n "commandLog ds"]
    by (simp add: redo_def split_beta)
  have r3: "commandLog ds = pre' @ c' # post' \<and> undone c' \<and> list_all (\<lambda>d. \<not> undone d) post'
        \<longrightarrow> redo ds = (Some \<lparr>action = ''redo'', commandId = id_cmd c'\<rparr>,
                       ds\<lparr>commandLog := pre' @ c'\<lparr>undone := False\<rparr> # post'\<rparr>)"
    using redo_loop_decomp [of c' post' pre'] by (simp add: redo_def)
  from u1 u2 u3 r1 r2 r3 show ?thesis by blast
qed

theorem undo_redo_spec_witness:
  "fst (undo ex_log) = Some \<lparr>action = ''undo'', commandId = ''a''\<rparr>
   \<and> map undone (commandLog (snd (undo ex_log))) = [True, True]
   \<and> fst (redo ex_log) = Some \<lparr>action = ''redo'', commandId = ''b''\<rparr>
   \<and> map undone (commandLog (snd (redo ex_log))) = [False, False]
   \<and> undo new_DrawingState = (None, new_DrawingState)
   \<and> redo new_DrawingState = (None, new_DrawingState)"
proof -
  let ?a = "commandLog ex_log ! 0" and ?b = "commandLog ex_log ! 1"
  have split_a: "commandLog ex_log = [] @ ?a # [?b]" by (simp add: ex_log_value)
  have split_b: "commandLog ex_log = [?a] @ ?b # []" by (simp add: ex_log_value)
  have fa: "\<not> undone ?a" "id_cmd ?a = ''a''" and fb: "undone ?b" "id_cmd ?b = ''b''"
    by (simp_all add: ex_log_value)
  have a: "undo ex_log = (Some \<lparr>action = ''undo'', commandId = id_cmd ?a\<rparr>,
                          ex_log\<lparr>commandLog := [] @ ?a\<lparr>undone := True\<rparr> # [?b]\<rparr>)"
    using undo_redo_spec [of ex_log "[]" ?a "[?b]"] split_a fa(1) fb(1) by simp
  have b: "redo ex_log = (Some \<lparr>action = ''redo'', commandId = id_cmd ?b\<rparr>,
                          ex_log\<lparr>commandLog := [?a] @ ?b\<lparr>undone := False\<rparr> # []\<rparr>)"
    using undo_redo_spec [of ex_log _ _ _ "[?a]" ?b "[]"] split_b fa(1) fb(1) by simp
  have c: "undo new_DrawingState = (None, new_DrawingState)"
    using undo_redo_spec [of new_DrawingState]
    by (simp add: new_DrawingState_def prod_eq_iff)
  have d: "redo new_DrawingState = (None, new_DrawingState)"
    using undo_redo_spec [of new_DrawingState]
    by (simp add: new_DrawingState_def prod_eq_iff)
  from a b c d fa fb show ?thesis by simp
qed

text \<open>
  Claim C1. The round trip fails on the log \<open>ex_log\<close>, reached by committing \<open>a\<close>,
  committing \<open>b\<close> and undoing once: the active commands are \<open>[a]\<close>; \<open>undo\<close> then marks
  \<open>a\<close>, and \<open>redo\<close>, scanning by position, clears the flag of \<open>b\<close>, not of \<open>a\<close>, so that
  the active commands are \<open>[b]\<close>.
\<close>

theorem undo_redo_roundtrip_fails:
  "map id_cmd (getActiveCommands ex_log) = [''a'']
   \<and> map id_cmd (getActiveCommands (snd (redo (snd (undo ex_log))))) = [''b'']"
  by (simp add: ex_log_value getActiveCommands_def undo_def redo_def numeral_2_eq_2)


text \<open>The round trip does hold from a log whose last entry is active.\<close>

lemma undo_redo_roundtrip_last_active:
  assumes "commandLog ds = pre @ [c]" and "\<not> undone c"
  shows "snd (redo (snd (undo ds))) = ds"
proof -
  have u: "undo ds = (Some \<lparr>action = ''undo'', commandId = id_cmd c\<rparr>,
                      ds\<lparr>commandLog := pre @ [c\<lparr>undone := True\<rparr>]\<rparr>)"
    using undo_loop_decomp [of c "[]" pre] assms by (simp add: undo_def)
  have r: "redo (ds\<lparr>commandLog := pre @ [c\<lparr>undone := True\<rparr>]\<rparr>)
             = (Some \<lparr>action = ''redo'', commandId = id_cmd c\<rparr>,
                ds\<lparr>commandLog := pre @ [c\<lparr>undone := True, undone := False\<rparr>]\<rparr>)"
    using redo_loop_decomp [of "c\<lparr>undone := True\<rparr>" "[]" pre] by (simp add: redo_def)
  from assms(2) have "c\<lparr>undone := False\<rparr> = c" by simp
  with u r assms(1) show ?thesis by simp
qed

subsection \<open>What the operations leave unchanged\<close>

lemma map_update_same: "(map f xs)[n := f (xs ! n)] = map f xs"
  by (simp add: map_update [symmetric])

lemma undo_loop_erase:
  "map (\<lambda>d. d\<lparr>undone := b\<rparr>) (snd (undo_loop n cmds)) = map (\<lambda>d. d\<lparr>undone := b\<rparr>) cmds"
proof (induction n)
  case 0
  show ?case by simp
next
  case (Suc n)
  have "(map (\<lambda>d. d\<lparr>undone := b\<rparr>) cmds)[n := (cmds ! n)\<lparr>undone := b\<rparr>]
          = map (\<lambda>d. d\<lparr>undone := b\<rparr>) cmds"
    by (rule map_update_same)
  with Suc show ?case by (simp add: map_update)
qed

lemma redo_loop_erase:
  "map (\<lambda>d. d\<lparr>undone := b\<rparr>) (snd (redo_loop n cmds)) = map (\<lambda>d. d\<lparr>undone := b\<rparr>) cmds"
proof (induction n)
  case 0
  show ?case by simp
next
  case (Suc n)
  have "(map (\<lambda>d. d\<lparr>undone := b\<rparr>) cmds)[n := (cmds ! n)\<lparr>undone := b\<rparr>]
          = map (\<lambda>d. d\<lparr>undone := b\<rparr>) cmds"
    by (rule map_update_same)
  with Suc show ?case by (simp add: map_update)
qed

lemma undo_erase:
  "map (\<lambda>d. d\<lparr>undone := b\<rparr>) (commandLog (snd (undo ds))) = map (\<lambda>d. d\<lparr>undone := b\<rparr>) (commandLog ds)"
  using undo_loop_erase [of b "length (commandLog ds)" "commandLog ds"]
  by (simp add: undo_def split_beta)

lemma redo_erase:
  "map (\<lambda>d. d\<lparr>undone := b\<rparr>) (commandLog (snd (redo ds))) = map (\<lambda>d. d\<lparr>undone := b\<rparr>) (commandLog ds)"
  using redo_loop_erase [of b "length (commandLog ds)" "commandLog ds"]
  by (simp add: redo_def split_beta)

lemma erase_cong:
  assumes "map (\<lambda>d. d\<lparr>undone := False\<rparr>) xs = map (\<lambda>d. d\<lparr>undone := False\<rparr>) (ys :: command list)"
    and "\<And>d. g (d\<lparr>undone := False\<rparr>) = g d"
  shows "map g xs = map g ys"
proof -
  have "map (g \<circ> (\<lambda>d. d\<lparr>undone := False\<rparr>)) xs = map (g \<circ> (\<lambda>d. d\<lparr>undone := False\<rparr>)) ys"
    using arg_cong [OF assms(1), of "map g"] by (simp only: map_map)
  then show ?thesis by (simp add: comp_def assms(2))
qed

lemma truncate_undone:
  "stroke_command.truncate (d\<lparr>undone := b\<rparr>) = stroke_command.truncate (d :: command)"
  by (simp add: stroke_command.defs)

lemma addCommand_log:
  "commandLog (snd (addCommand now c ds)) = commandLog ds @ [fst (addCommand now c ds)]"
  by (simp add: addCommand_def Let_def)

lemma addCommand_fst:
  "stroke_command.truncate (fst (addCommand now c ds)) = c"
  "undone (fst (addCommand now c ds)) = False"
  "timestamp (fst (addCommand now c ds)) = now"
  by (simp_all add: addCommand_def Let_def stroke_command.defs)

text \<open>
  Claim C9. \<open>addCommand\<close> extends the log by one entry at the end and leaves every entry
  already there as it is, flag included. \<open>undo\<close> and \<open>redo\<close> keep the length and the
  order of the log, and each entry is what it was up to its \<open>undone\<close> flag: its
  \<open>points\<close>, \<open>id\<close> and \<open>authorId\<close> in particular. This holds from every log, so from every
  reachable one.
\<close>

theorem log_append_only:
  "commandLog (snd (addCommand now c ds)) = commandLog ds @ [fst (addCommand now c ds)]
   \<and> length (commandLog (snd (undo ds))) = length (commandLog ds)
   \<and> map (\<lambda>d. d\<lparr>undone := False\<rparr>) (commandLog (snd (undo ds)))
       = map (\<lambda>d. d\<lparr>undone := False\<rparr>) (commandLog ds)
   \<and> map points (commandLog (snd (undo ds))) = map points (commandLog ds)
   \<and> map id_cmd (commandLog (snd (undo ds))) = map id_cmd (commandLog ds)
   \<and> map authorId (commandLog (snd (undo ds))) = map authorId (commandLog ds)
   \<and> length (commandLog (snd (redo ds))) = length (commandLog ds)
   \<and> map (\<lambda>d. d\<lparr>undone := False\<rparr>) (commandLog (snd (redo ds)))
       = map (\<lambda>d. d\<lparr>undone := False\<rparr>) (commandLog ds)
   \<and> map points (commandLog (snd (redo ds))) = map points (commandLog ds)
   \<and> map id_cmd (commandLog (snd (redo ds))) = map id_cmd (commandLog ds)
   \<and> map authorId (commandLog (snd (redo ds))) = map authorId (commandLog ds)"
proof -
  have lu: "length (commandLog (snd (undo ds))) = length (commandLog ds)"
    using undo_loop_length [of "length (commandLog ds)" "commandLog ds"]
    by (simp add: undo_def split_beta)
  have lr: "length (commandLog (snd (redo ds))) = length (commandLog ds)"
    using redo_loop_length [of "length (commandLog ds)" "commandLog ds"]
    by (simp add: redo_def split_beta)
  note u = undo_erase [of False ds] and r = redo_erase [of False ds]
  show ?thesis
    using addCommand_log [of now c ds] lu lr u r
      erase_cong [OF u, of points] erase_cong [OF u, of id_cmd] erase_cong [OF u, of authorId]
      erase_cong [OF r, of points] erase_cong [OF r, of id_cmd] erase_cong [OF r, of authorId]
    by simp
qed

lemma run_ops_snoc: "run_ops (ops @ [op]) = apply_op (run_ops ops) op"
  by (simp add: run_ops_def)

lemma appended_snoc:
  "appended (ops @ [op]) = appended ops @ (case op of Append now c \<Rightarrow> [(now, c)] | _ \<Rightarrow> [])"
  by (induction ops rule: appended.induct) (auto split: log_op.splits)

lemma run_ops_entries:
  "map (\<lambda>d. (timestamp d, stroke_command.truncate d)) (commandLog (run_ops ops)) = appended ops"
proof (induction ops rule: rev_induct)
  case Nil
  show ?case by (simp add: run_ops_def new_DrawingState_def)
next
  case (snoc op ops)
  let ?f = "\<lambda>d. (timestamp d, stroke_command.truncate d)"
  show ?case
  proof (cases op)
    case (Append now c)
    then show ?thesis
      using snoc by (simp add: run_ops_snoc appended_snoc addCommand_log addCommand_fst)
  next
    case Undo
    have "map ?f (commandLog (snd (undo (run_ops ops)))) = map ?f (commandLog (run_ops ops))"
      by (rule erase_cong [OF undo_erase]) (simp add: truncate_undone)
    with Undo snoc show ?thesis by (simp add: run_ops_snoc appended_snoc)
  next
    case Redo
    have "map ?f (commandLog (snd (redo (run_ops ops)))) = map ?f (commandLog (run_ops ops))"
      by (rule erase_cong [OF redo_erase]) (simp add: truncate_undone)
    with Redo snoc show ?thesis by (simp add: run_ops_snoc appended_snoc)
  qed
qed

text \<open>
  Claim C7. After every history of appends, undos and redos on a new log, the entries
  of the log are the appended commands, each with the timestamp of its append, in append
  order, and \<open>getActiveCommands\<close> returns the entries whose \<open>undone\<close> flag is false, in
  that order.
\<close>

theorem active_commands_in_append_order:
  "map (\<lambda>d. (timestamp d, stroke_command.truncate d)) (commandLog (run_ops ops)) = appended ops
   \<and> getActiveCommands (run_ops ops) = filter (\<lambda>d. \<not> undone d) (commandLog (run_ops ops))"
  using run_ops_entries [of ops] by (simp add: getActiveCommands_def)

subsection \<open>Appending under an id that is already in the log\<close>

text \<open>
  Claim C3, as the source has it. \<open>addCommand\<close> has no failure: whatever the log and the
  index hold, the command is appended at the end with \<open>undone = false\<close> and the clock
  reading, the entries already there stay, and the index maps the command's id to the
  new, last position. The ids of the log stay pairwise distinct exactly when they were
  and the new id is not among them.
\<close>

theorem addCommand_never_rejects:
  "commandLog (snd (addCommand now c ds)) = commandLog ds @ [fst (addCommand now c ds)]
   \<and> stroke_command.truncate (fst (addCommand now c ds)) = c
   \<and> undone (fst (addCommand now c ds)) = False
   \<and> timestamp (fst (addCommand now c ds)) = now
   \<and> map_of (commandIndex (snd (addCommand now c ds))) (id_cmd c) = Some (length (commandLog ds))
   \<and> (distinct (map id_cmd (commandLog (snd (addCommand now c ds))))
        \<longleftrightarrow> distinct (map id_cmd (commandLog ds)) \<and> id_cmd c \<notin> set (map id_cmd (commandLog ds)))"
  by (auto simp add: addCommand_def Let_def stroke_command.defs update_conv')

text \<open>
  Claim C3 as stated fails: appending the stroke \<open>a\<close> to a log that already holds and
  indexes \<open>a\<close> changes the log, which then has two entries under that id.
\<close>

theorem addCommand_duplicate_counterexample:
  "map_of (commandIndex (snd (addCommand 1 (ex_cmd ''a'') new_DrawingState))) (id_cmd (ex_cmd ''a''))
     = Some 0
   \<and> commandLog (snd (addCommand 2 (ex_cmd ''a'') (snd (addCommand 1 (ex_cmd ''a'') new_DrawingState))))
     \<noteq> commandLog (snd (addCommand 1 (ex_cmd ''a'') new_DrawingState))
   \<and> map id_cmd
       (commandLog (snd (addCommand 2 (ex_cmd ''a'') (snd (addCommand 1 (ex_cmd ''a'') new_DrawingState)))))
     = [''a'', ''a'']"
  by (simp add: addCommand_def Let_def ex_cmd_def new_DrawingState_def)

section \<open>The connection handlers\<close>

subsection \<open>The example states, evaluated\<close>

lemmas handler_defs = on_join_room_def on_draw_start_def on_draw_continue_def on_draw_end_def
  on_cursor_move_def on_undo_def on_redo_def on_disconnect_def guard_room_def guard_room_user_def
  getInFlightForRoom_def getOrCreateRoom_def addUser_def removeUser_def isEmpty_def deleteRoom_def
  getUserList_def getFullState_def new_Room_def new_DrawingState_def USER_COLORS_def
  discard_strokes_def addCommand_def

lemma ex_join1_value:
  "ex_join1 =
    (\<lparr>socket_id = ''s1'', currentRoom = Some ''r1'',
       currentUser = Some \<lparr>id_user = ''u1'', name = ''Ann'', color_user = ''#e74c3c'', socketId = ''s1''\<rparr>\<rparr>,
     \<lparr>rooms = [(''r1'', \<lparr>id_room = ''r1'',
                  users = [(''s1'', \<lparr>id_user = ''u1'', name = ''Ann'', color_user = ''#e74c3c'', socketId = ''s1''\<rparr>)],
                  drawingState = \<lparr>commandLog = [], commandIndex = []\<rparr>, colorIndex = 1\<rparr>)],
       inFlightStrokes = [], membership = [(''s1'', ''r1'')]\<rparr>,
     [(ToSocket ''s1'',
        Room_state [\<lparr>id_info = ''u1'', name_info = ''Ann'', color_info = ''#e74c3c''\<rparr>] []
          \<lparr>id_user = ''u1'', name = ''Ann'', color_user = ''#e74c3c'', socketId = ''s1''\<rparr>),
      (ToOthers ''r1'' ''s1'', User_joined \<lparr>id_info = ''u1'', name_info = ''Ann'', color_info = ''#e74c3c''\<rparr>)])"
  by (simp add: ex_join1_def new_server_def handler_defs Let_def)

lemma ex_join2_value:
  "ex_join2 =
    (\<lparr>socket_id = ''s1'', currentRoom = Some ''r2'',
       currentUser = Some \<lparr>id_user = ''u2'', name = ''Ann'', color_user = ''#e74c3c'', socketId = ''s1''\<rparr>\<rparr>,
     \<lparr>rooms = [(''r1'', \<lparr>id_room = ''r1'',
                  users = [(''s1'', \<lparr>id_user = ''u1'', name = ''Ann'', color_user = ''#e74c3c'', socketId = ''s1''\<rparr>)],
                  drawingState = \<lparr>commandLog = [], commandIndex = []\<rparr>, colorIndex = 1\<rparr>),
                (''r2'', \<lparr>id_room = ''r2'',
                  users = [(''s1'', \<lparr>id_user = ''u2'', name = ''Ann'', color_user = ''#e74c3c'', socketId = ''s1''\<rparr>)],
                  drawingState = \<lparr>commandLog = [], commandIndex = []\<rparr>, colorIndex = 1\<rparr>)],
       inFlightStrokes = [], membership = [(''s1'', ''r2'')]\<rparr>,
     [(ToSocket ''s1'',
        Room_state [\<lparr>id_info = ''u2'', name_info = ''Ann'', color_info = ''#e74c3c''\<rparr>] []
          \<lparr>id_user = ''u2'', name = ''Ann'', color_user = ''#e74c3c'', socketId = ''s1''\<rparr>),
      (ToOthers ''r2'' ''s1'', User_joined \<lparr>id_info = ''u2'', name_info = ''Ann'', color_info = ''#e74c3c''\<rparr>)])"
  by (simp add: ex_join2_def ex_join1_value handler_defs Let_def)

lemma ex_started_value:
  "ex_started =
     \<lparr>rooms = [(''r1'', \<lparr>id_room = ''r1'',
                  users = [(''s1'', \<lparr>id_user = ''u1'', name = ''Ann'', color_user = ''#e74c3c'', socketId = ''s1''\<rparr>)],
                  drawingState = \<lparr>commandLog = [], commandIndex = []\<rparr>, colorIndex = 1\<rparr>)],
       inFlightStrokes =
         [(''r1'', [(''k'', \<lparr>points = [\<lparr>x = 0, y = 0\<rparr>], color = ''#000000'', width = 2,
                           tool = ''brush'', authorId = ''u1'', authorName = ''Ann'',
                           authorColor = ''#e74c3c''\<rparr>)])],
       membership = [(''s1'', ''r1'')]\<rparr>"
  by (simp add: ex_started_def ex_join1_value handler_defs Let_def)

lemma ex_continued_value:
  "ex_continued =
     \<lparr>rooms = [(''r1'', \<lparr>id_room = ''r1'',
                  users = [(''s1'', \<lparr>id_user = ''u1'', name = ''Ann'', color_user = ''#e74c3c'', socketId = ''s1''\<rparr>)],
                  drawingState = \<lparr>commandLog = [], commandIndex = []\<rparr>, colorIndex = 1\<rparr>)],
       inFlightStrokes =
         [(''r1'', [(''k'', \<lparr>points = [\<lparr>x = 0, y = 0\<rparr>, \<lparr>x = 1, y = 1\<rparr>, \<lparr>x = 2, y = 3\<rparr>],
                           color = ''#000000'', width = 2,
                           tool = ''brush'', authorId = ''u1'', authorName = ''Ann'',
                           authorColor = ''#e74c3c''\<rparr>)])],
       membership = [(''s1'', ''r1'')]\<rparr>"
  by (simp add: ex_continued_def ex_started_value ex_join1_value handler_defs Let_def)

lemma ex_committed_value:
  "ex_committed =
     \<lparr>rooms = [(''r1'', \<lparr>id_room = ''r1'',
                  users = [(''s1'', \<lparr>id_user = ''u1'', name = ''Ann'', color_user = ''#e74c3c'', socketId = ''s1''\<rparr>)],
                  drawingState =
                    \<lparr>commandLog =
                       [\<lparr>points = [\<lparr>x = 0, y = 0\<rparr>, \<lparr>x = 1, y = 1\<rparr>, \<lparr>x = 2, y = 3\<rparr>],
                         color = ''#000000'', width = 2, tool = ''brush'', authorId = ''u1'',
                         authorName = ''Ann'', authorColor = ''#e74c3c'', id_cmd = ''k'',
                         undone = False, timestamp = 5\<rparr>],
                      commandIndex = [(''k'', 0)]\<rparr>,
                  colorIndex = 1\<rparr>)],
       inFlightStrokes = [(''r1'', [])],
       membership = [(''s1'', ''r1'')]\<rparr>"
  by (simp add: ex_committed_def ex_continued_value ex_join1_value handler_defs Let_def)

lemma ex_two_users_value:
  "ex_two_users =
     \<lparr>rooms = [(''r1'', \<lparr>id_room = ''r1'',
                  users = [(''s1'', \<lparr>id_user = ''u1'', name = ''Ann'', color_user = ''#e74c3c'', socketId = ''s1''\<rparr>),
                           (''s2'', \<lparr>id_user = ''u3'', name = ''Bob'', color_user = ''#3498db'', socketId = ''s2''\<rparr>)],
                  drawingState =
                    \<lparr>commandLog =
                       [\<lparr>points = [\<lparr>x = 0, y = 0\<rparr>, \<lparr>x = 1, y = 1\<rparr>, \<lparr>x = 2, y = 3\<rparr>],
                         color = ''#000000'', width = 2, tool = ''brush'', authorId = ''u1'',
                         authorName = ''Ann'', authorColor = ''#e74c3c'', id_cmd = ''k'',
                         undone = False, timestamp = 5\<rparr>],
                      commandIndex = [(''k'', 0)]\<rparr>,
                  colorIndex = 2\<rparr>)],
       inFlightStrokes =
         [(''r1'', [(''m'', \<lparr>points = [\<lparr>x = 5, y = 5\<rparr>], color = ''#000000'', width = 2,
                           tool = ''brush'', authorId = ''u1'', authorName = ''Ann'',
                           authorColor = ''#e74c3c''\<rparr>),
                   (''n'', \<lparr>points = [\<lparr>x = 7, y = 7\<rparr>], color = ''#111111'', width = 1,
                           tool = ''brush'', authorId = ''u3'', authorName = ''Bob'',
                           authorColor = ''#3498db''\<rparr>)])],
       membership = [(''s2'', ''r1''), (''s1'', ''r1'')]\<rparr>"
  by (simp add: ex_two_users_def ex_committed_value ex_join1_value handler_defs Let_def)

subsection \<open>Events of a connection that has not joined\<close>

text \<open>
  Claim C10. A connection whose \<open>currentRoom\<close> and \<open>currentUser\<close> are both unset: each of
  \<open>draw_start\<close>, \<open>draw_continue\<close>, \<open>draw_end\<close>, \<open>cursor_move\<close>, \<open>undo\<close> and \<open>redo\<close> returns
  the server state it was given (rooms, command logs and in-flight tables included) and
  emits nothing.
\<close>

theorem unjoined_events_are_noops:
  assumes "currentRoom c = None" and "currentUser c = None"
  shows "on_draw_start c k pts col w t s = (s, [])
     \<and> on_draw_continue c k pts' s = (s, [])
     \<and> on_draw_end now c k s = (s, [])
     \<and> on_cursor_move c cx cy s = (s, [])
     \<and> on_undo c s = (s, [])
     \<and> on_redo c s = (s, [])"
  using assms
  by (simp add: on_draw_start_def on_draw_continue_def on_draw_end_def on_cursor_move_def
      on_undo_def on_redo_def guard_room_def guard_room_user_def)

theorem unjoined_events_are_noops_witness:
  "currentRoom \<lparr>socket_id = ''s2'', currentRoom = None, currentUser = None\<rparr> = None
   \<and> currentUser \<lparr>socket_id = ''s2'', currentRoom = None, currentUser = None\<rparr> = None
   \<and> on_draw_start \<lparr>socket_id = ''s2'', currentRoom = None, currentUser = None\<rparr>
         ''k'' (Some [\<lparr>x = 4, y = 4\<rparr>]) ''#ffffff'' 3 ''eraser'' ex_started = (ex_started, [])
   \<and> on_draw_continue \<lparr>socket_id = ''s2'', currentRoom = None, currentUser = None\<rparr>
         ''k'' (Some [\<lparr>x = 4, y = 4\<rparr>]) ex_started = (ex_started, [])
   \<and> on_draw_end 7 \<lparr>socket_id = ''s2'', currentRoom = None, currentUser = None\<rparr>
         ''k'' ex_started = (ex_started, [])
   \<and> on_cursor_move \<lparr>socket_id = ''s2'', currentRoom = None, currentUser = None\<rparr>
         4 4 ex_committed = (ex_committed, [])
   \<and> on_undo \<lparr>socket_id = ''s2'', currentRoom = None, currentUser = None\<rparr> ex_committed
         = (ex_committed, [])
   \<and> on_redo \<lparr>socket_id = ''s2'', currentRoom = None, currentUser = None\<rparr> ex_committed
         = (ex_committed, [])"
  using unjoined_events_are_noops
          [of "\<lparr>socket_id = ''s2'', currentRoom = None, currentUser = None\<rparr>"
              "''k''" "Some [\<lparr>x = 4, y = 4\<rparr>]" "''#ffffff''" 3 "''eraser''" ex_started
              "Some [\<lparr>x = 4, y = 4\<rparr>]" 7 4 4]
        unjoined_events_are_noops
          [of "\<lparr>socket_id = ''s2'', currentRoom = None, currentUser = None\<rparr>"
              "''k''" None "[]" 0 "[]" ex_committed None 0 4 4]
  by simp

subsection \<open>A second join\<close>

text \<open>
  Claim C2. The connection \<open>s1\<close>, joined to \<open>r1\<close>, joins \<open>r2\<close>. Its socket leaves the
  socket.io room \<open>r1\<close>, but its user stays in the user map of the room \<open>r1\<close>, and
  \<open>r1\<close> stays in the registry: also after the connection's disconnect, which cleans up
  \<open>r2\<close> only.
\<close>

theorem second_join_keeps_prior_user:
  "currentRoom (fst ex_join1) = Some ''r1''
   \<and> map fst (rooms (fst (snd ex_join1))) = [''r1'']
   \<and> currentRoom (fst ex_join2) = Some ''r2''
   \<and> map fst (rooms (fst (snd ex_join2))) = [''r1'', ''r2'']
   \<and> map_option users (map_of (rooms (fst (snd ex_join2))) ''r1'')
       = Some [(''s1'', \<lparr>id_user = ''u1'', name = ''Ann'', color_user = ''#e74c3c'',
                           socketId = ''s1''\<rparr>)]
   \<and> membership (fst (snd ex_join2)) = [(''s1'', ''r2'')]
   \<and> map fst (rooms (fst (on_disconnect (fst ex_join2) (fst (snd ex_join2))))) = [''r1'']
   \<and> map_option users
         (map_of (rooms (fst (on_disconnect (fst ex_join2) (fst (snd ex_join2))))) ''r1'')
       = Some [(''s1'', \<lparr>id_user = ''u1'', name = ''Ann'', color_user = ''#e74c3c'',
                           socketId = ''s1''\<rparr>)]"
  by (simp add: ex_join1_value ex_join2_value handler_defs Let_def)

text \<open>
  This is so from every state: a join changes no room but the one joined, whatever
  room the connection was in.
\<close>

lemma join_room_other_rooms_unchanged:
  assumes "r \<noteq> rid"
  shows "map_of (rooms (fst (snd (on_join_room uuid c (Some rid) nm s)))) r = map_of (rooms s) r"
  using assms
  by (simp add: on_join_room_def getOrCreateRoom_def split_beta Let_def update_conv'
      split: option.splits)

subsection \<open>Strokes in flight\<close>

lemma inflight_of_update:
  "fst (getInFlightForRoom r (AList.update r m inflight)) = m"
  by (simp add: getInFlightForRoom_def update_conv')

lemma inflight_snd_update:
  "AList.update r m (snd (getInFlightForRoom r inflight)) = AList.update r m inflight"
  by (simp add: getInFlightForRoom_def split: option.splits)

lemma room_of_update:
  "fst (getOrCreateRoom r (AList.update r room rms)) = room"
  by (simp add: getOrCreateRoom_def update_conv')

lemma on_draw_start_joined:
  assumes "currentRoom c = Some r" "r \<noteq> []" "currentUser c = Some u"
  shows "on_draw_start c k pts col w t s =
     (s\<lparr>inFlightStrokes :=
          AList.update r
            (AList.update k
               \<lparr>points = (case pts of None \<Rightarrow> [] | Some ps \<Rightarrow> ps), color = col, width = w,
                tool = t, authorId = id_user u, authorName = name u,
                authorColor = color_user u\<rparr>
               (fst (getInFlightForRoom r (inFlightStrokes s))))
            (inFlightStrokes s)\<rparr>,
      [(ToOthers r (socket_id c), Draw_start k pts col w t (id_user u) (color_user u))])"
  using assms
  by (simp add: on_draw_start_def guard_room_user_def split_beta Let_def inflight_snd_update)

lemma on_draw_continue_joined:
  assumes "currentRoom c = Some r" "r \<noteq> []" "currentUser c = Some u"
    and "map_of (fst (getInFlightForRoom r (inFlightStrokes s))) k = Some st"
  shows "on_draw_continue c k (Some ps) s =
     (s\<lparr>inFlightStrokes :=
          AList.update r
            (AList.update k (st\<lparr>points := points st @ ps\<rparr>)
               (fst (getInFlightForRoom r (inFlightStrokes s))))
            (inFlightStrokes s)\<rparr>,
      [(ToOthers r (socket_id c), Draw_continue k ps)])"
  using assms
  by (simp add: on_draw_continue_def guard_room_user_def split_beta Let_def inflight_snd_update)

lemma on_draw_end_joined:
  assumes "currentRoom c = Some r" "r \<noteq> []" "currentUser c = Some u"
    and "map_of (fst (getInFlightForRoom r (inFlightStrokes s))) k = Some st"
  shows "on_draw_end now c k s =
     (s\<lparr>rooms :=
          AList.update r
            ((fst (getOrCreateRoom r (rooms s)))
               \<lparr>drawingState :=
                  snd (addCommand now
                         \<lparr>points = points st, color = color st, width = width st, tool = tool st,
                          authorId = authorId st, authorName = authorName st,
                          authorColor = authorColor st, id_cmd = k\<rparr>
                         (drawingState (fst (getOrCreateRoom r (rooms s)))))\<rparr>)
            (rooms s),
        inFlightStrokes :=
          AList.update r (AList.delete k (fst (getInFlightForRoom r (inFlightStrokes s))))
            (inFlightStrokes s)\<rparr>,
      [(ToAll r,
        Draw_end k
          \<lparr>points = points st, color = color st, width = width st, tool = tool st,
           authorId = authorId st, authorName = authorName st,
           authorColor = authorColor st, id_cmd = k, undone = False, timestamp = now\<rparr>)])"
proof -
  have upd: "AList.update r room' (snd (getOrCreateRoom r (rooms s))) = AList.update r room' (rooms s)"
    for room'
    by (simp add: getOrCreateRoom_def split: option.splits)
  have cmd: "fst (addCommand now c' ds) =
      \<lparr>points = points c', color = color c', width = width c', tool = tool c',
       authorId = authorId c', authorName = authorName c', authorColor = authorColor c',
       id_cmd = id_cmd c', undone = False, timestamp = now\<rparr>" for c' ds
    by (simp add: addCommand_def Let_def)
  show ?thesis
    using assms
    by (simp add: on_draw_end_def guard_room_user_def split_beta Let_def inflight_snd_update upd cmd)
qed

text \<open>
  Claim C4, as the source has it. \<open>draw_start\<close> from a joined connection has no failure:
  whether or not \<open>k\<close> is tracked, afterwards the in-flight table of the room holds under
  \<open>k\<close> the entry built from this payload and this user (the points of the payload, none
  if absent), every other stroke id maps to what it did, the rooms are unchanged and the
  one message sent is the relay of \<open>draw_start\<close> to the other connections of the room.
\<close>

theorem draw_start_replaces_entry:
  assumes "currentRoom c = Some r" and "r \<noteq> []" and "currentUser c = Some u"
  shows "map_of (fst (getInFlightForRoom r (inFlightStrokes (fst (on_draw_start c k pts col w t s))))) k
           = Some \<lparr>points = (case pts of None \<Rightarrow> [] | Some ps \<Rightarrow> ps), color = col, width = w,
                   tool = t, authorId = id_user u, authorName = name u,
                   authorColor = color_user u\<rparr>
     \<and> (k' \<noteq> k \<longrightarrow>
          map_of (fst (getInFlightForRoom r (inFlightStrokes (fst (on_draw_start c k pts col w t s))))) k'
            = map_of (fst (getInFlightForRoom r (inFlightStrokes s))) k')
     \<and> rooms (fst (on_draw_start c k pts col w t s)) = rooms s
     \<and> snd (on_draw_start c k pts col w t s)
           = [(ToOthers r (socket_id c), Draw_start k pts col w t (id_user u) (color_user u))]"
  by (simp add: on_draw_start_joined [OF assms] inflight_of_update update_conv')


theorem draw_start_replaces_entry_witness:
  "currentRoom (fst ex_join1) = Some ''r1'' \<and> ''r1'' \<noteq> []
   \<and> currentUser (fst ex_join1)
        = Some \<lparr>id_user = ''u1'', name = ''Ann'', color_user = ''#e74c3c'', socketId = ''s1''\<rparr>
   \<and> map_of (fst (getInFlightForRoom ''r1'' (inFlightStrokes ex_started))) ''k''
        = Some \<lparr>points = [\<lparr>x = 0, y = 0\<rparr>], color = ''#000000'', width = 2, tool = ''brush'',
                authorId = ''u1'', authorName = ''Ann'', authorColor = ''#e74c3c''\<rparr>
   \<and> map_of (fst (getInFlightForRoom ''r1''
         (inFlightStrokes (fst (on_draw_start (fst ex_join1) ''k'' (Some [\<lparr>x = 9, y = 9\<rparr>])
                                  ''#ffffff'' 3 ''eraser'' ex_started))))) ''k''
        = Some \<lparr>points = [\<lparr>x = 9, y = 9\<rparr>], color = ''#ffffff'', width = 3, tool = ''eraser'',
                authorId = ''u1'', authorName = ''Ann'', authorColor = ''#e74c3c''\<rparr>"
proof -
  let ?u = "\<lparr>id_user = ''u1'', name = ''Ann'', color_user = ''#e74c3c'', socketId = ''s1''\<rparr>"
  have h1: "currentRoom (fst ex_join1) = Some ''r1''" by (simp add: ex_join1_value)
  have h2: "''r1'' \<noteq> []" by simp
  have h3: "currentUser (fst ex_join1) = Some ?u" by (simp add: ex_join1_value)
  have old: "map_of (fst (getInFlightForRoom ''r1'' (inFlightStrokes ex_started))) ''k''
        = Some \<lparr>points = [\<lparr>x = 0, y = 0\<rparr>], color = ''#000000'', width = 2, tool = ''brush'',
                authorId = ''u1'', authorName = ''Ann'', authorColor = ''#e74c3c''\<rparr>"
    by (simp add: ex_started_value getInFlightForRoom_def)
  from draw_start_replaces_entry [OF h1 h2 h3, of "''k''" "Some [\<lparr>x = 9, y = 9\<rparr>]"
         "''#ffffff''" 3 "''eraser''" ex_started] h1 h2 h3 old
  show ?thesis by simp
qed

text \<open>
  Claim C4 as stated fails: with \<open>k\<close> in flight, a second \<open>draw_start\<close> for \<open>k\<close>
  replaces the entry (the point \<open>(0, 0)\<close> is gone) and is relayed like any other; no
  error is sent.
\<close>

theorem draw_start_duplicate_counterexample:
  "map_of (fst (getInFlightForRoom ''r1'' (inFlightStrokes ex_started))) ''k''
     = Some \<lparr>points = [\<lparr>x = 0, y = 0\<rparr>], color = ''#000000'', width = 2, tool = ''brush'',
             authorId = ''u1'', authorName = ''Ann'', authorColor = ''#e74c3c''\<rparr>
   \<and> fst (getInFlightForRoom ''r1''
          (inFlightStrokes (fst (on_draw_start (fst ex_join1) ''k'' (Some [\<lparr>x = 9, y = 9\<rparr>])
                                   ''#ffffff'' 3 ''eraser'' ex_started))))
     = [(''k'', \<lparr>points = [\<lparr>x = 9, y = 9\<rparr>], color = ''#ffffff'', width = 3, tool = ''eraser'',
                 authorId = ''u1'', authorName = ''Ann'', authorColor = ''#e74c3c''\<rparr>)]
   \<and> snd (on_draw_start (fst ex_join1) ''k'' (Some [\<lparr>x = 9, y = 9\<rparr>]) ''#ffffff'' 3 ''eraser''
           ex_started)
     = [(ToOthers ''r1'' ''s1'',
         Draw_start ''k'' (Some [\<lparr>x = 9, y = 9\<rparr>]) ''#ffffff'' 3 ''eraser'' ''u1'' ''#e74c3c'')]"
  by (simp add: ex_started_value ex_join1_value on_draw_start_def guard_room_user_def
      getInFlightForRoom_def Let_def)

lemma continue_fold:
  assumes "currentRoom c = Some r" "r \<noteq> []" "currentUser c = Some u"
  shows "map_of (fst (getInFlightForRoom r (inFlightStrokes s))) k = Some st \<Longrightarrow>
     map_of (fst (getInFlightForRoom r (inFlightStrokes
        (foldl (\<lambda>s' ps. fst (on_draw_continue c k (Some ps) s')) s pss)))) k
       = Some (st\<lparr>points := points st @ concat pss\<rparr>)
     \<and> rooms (foldl (\<lambda>s' ps. fst (on_draw_continue c k (Some ps) s')) s pss) = rooms s"
proof (induction pss arbitrary: s st)
  case Nil
  then show ?case by simp
next
  case (Cons ps pss)
  let ?s1 = "fst (on_draw_continue c k (Some ps) s)"
  have step: "map_of (fst (getInFlightForRoom r (inFlightStrokes ?s1))) k
      = Some (st\<lparr>points := points st @ ps\<rparr>)"
    by (simp add: on_draw_continue_joined [OF assms Cons.prems] inflight_of_update update_conv')
  have rs: "rooms ?s1 = rooms s"
    by (simp add: on_draw_continue_joined [OF assms Cons.prems])
  from Cons.IH [OF step] rs show ?case by simp
qed

text \<open>
  Claim C6. A joined connection sends \<open>draw_start\<close> for \<open>k\<close> with the points \<open>pts\<close>, then
  a \<open>draw_continue\<close> for \<open>k\<close> with each element of \<open>pss\<close>, then \<open>draw_end\<close> for \<open>k\<close>.
  The command that \<open>draw_end\<close> broadcasts to the room and appends to the room's log has
  as points the points of the start followed by those of each continuation, in call
  order; the stroke is no longer in flight.
\<close>

theorem commit_points_are_concatenation:
  assumes "currentRoom c = Some r" and "r \<noteq> []" and "currentUser c = Some u"
  shows "snd (on_draw_end now c k (draw_gesture c k pts col w t pss s))
           = [(ToAll r,
               Draw_end k
                 \<lparr>points = (case pts of None \<Rightarrow> [] | Some ps \<Rightarrow> ps) @ concat pss,
                  color = col, width = w, tool = t, authorId = id_user u,
                  authorName = name u, authorColor = color_user u, id_cmd = k,
                  undone = False, timestamp = now\<rparr>)]
     \<and> commandLog (drawingState (fst (getOrCreateRoom r
          (rooms (fst (on_draw_end now c k (draw_gesture c k pts col w t pss s)))))))
         = commandLog (drawingState (fst (getOrCreateRoom r (rooms s))))
           @ [\<lparr>points = (case pts of None \<Rightarrow> [] | Some ps \<Rightarrow> ps) @ concat pss,
               color = col, width = w, tool = t, authorId = id_user u,
               authorName = name u, authorColor = color_user u, id_cmd = k,
               undone = False, timestamp = now\<rparr>]
     \<and> map_of (fst (getInFlightForRoom r
          (inFlightStrokes (fst (on_draw_end now c k (draw_gesture c k pts col w t pss s)))))) k
         = None"
proof -
  let ?s1 = "fst (on_draw_start c k pts col w t s)"
  let ?s2 = "draw_gesture c k pts col w t pss s"
  let ?st = "\<lparr>points = (case pts of None \<Rightarrow> [] | Some ps \<Rightarrow> ps), color = col, width = w,
              tool = t, authorId = id_user u, authorName = name u,
              authorColor = color_user u\<rparr>"
  have s1: "map_of (fst (getInFlightForRoom r (inFlightStrokes ?s1))) k = Some ?st"
    by (simp add: on_draw_start_joined [OF assms] inflight_of_update update_conv')
  have r1: "rooms ?s1 = rooms s"
    by (simp add: on_draw_start_joined [OF assms])
  from continue_fold [OF assms s1, of pss]
  have s2: "map_of (fst (getInFlightForRoom r (inFlightStrokes ?s2))) k
              = Some (?st\<lparr>points := points ?st @ concat pss\<rparr>)"
    and r2: "rooms ?s2 = rooms ?s1"
    by (simp_all add: draw_gesture_def)
  show ?thesis
    by (simp add: on_draw_end_joined [OF assms s2] r2 r1 room_of_update inflight_of_update
        addCommand_def Let_def delete_conv')
qed

theorem commit_points_are_concatenation_witness:
  "currentRoom (fst ex_join1) = Some ''r1'' \<and> ''r1'' \<noteq> []
   \<and> currentUser (fst ex_join1)
        = Some \<lparr>id_user = ''u1'', name = ''Ann'', color_user = ''#e74c3c'', socketId = ''s1''\<rparr>
   \<and> draw_gesture (fst ex_join1) ''k'' (Some [\<lparr>x = 0, y = 0\<rparr>]) ''#000000'' 2 ''brush''
        [[\<lparr>x = 1, y = 1\<rparr>, \<lparr>x = 2, y = 3\<rparr>]] (fst (snd ex_join1)) = ex_continued
   \<and> map points (commandLog (drawingState (fst (getOrCreateRoom ''r1'' (rooms ex_committed)))))
        = [[\<lparr>x = 0, y = 0\<rparr>, \<lparr>x = 1, y = 1\<rparr>, \<lparr>x = 2, y = 3\<rparr>]]"
proof -
  let ?u = "\<lparr>id_user = ''u1'', name = ''Ann'', color_user = ''#e74c3c'', socketId = ''s1''\<rparr>"
  have h1: "currentRoom (fst ex_join1) = Some ''r1''" by (simp add: ex_join1_value)
  have h2: "''r1'' \<noteq> []" by simp
  have h3: "currentUser (fst ex_join1) = Some ?u" by (simp add: ex_join1_value)
  have g: "draw_gesture (fst ex_join1) ''k'' (Some [\<lparr>x = 0, y = 0\<rparr>]) ''#000000'' 2 ''brush''
        [[\<lparr>x = 1, y = 1\<rparr>, \<lparr>x = 2, y = 3\<rparr>]] (fst (snd ex_join1)) = ex_continued"
    by (simp add: draw_gesture_def ex_continued_def ex_started_def)
  have e: "commandLog (drawingState (fst (getOrCreateRoom ''r1'' (rooms (fst (snd ex_join1)))))) = []"
    by (simp add: ex_join1_value getOrCreateRoom_def)
  from commit_points_are_concatenation [OF h1 h2 h3, of 5 "''k''" "Some [\<lparr>x = 0, y = 0\<rparr>]"
         "''#000000''" 2 "''brush''" "[[\<lparr>x = 1, y = 1\<rparr>, \<lparr>x = 2, y = 3\<rparr>]]" "fst (snd ex_join1)"]
  have "commandLog (drawingState (fst (getOrCreateRoom ''r1'' (rooms ex_committed))))
          = [\<lparr>points = [\<lparr>x = 0, y = 0\<rparr>, \<lparr>x = 1, y = 1\<rparr>, \<lparr>x = 2, y = 3\<rparr>],
               color = ''#000000'', width = 2, tool = ''brush'', authorId = ''u1'',
               authorName = ''Ann'', authorColor = ''#e74c3c'', id_cmd = ''k'',
               undone = False, timestamp = 5\<rparr>]"
    by (simp add: g e ex_committed_def)
  with h1 h2 h3 g show ?thesis by simp
qed


subsection \<open>Disconnect\<close>

lemma set_delete_iff: "(k, v) \<in> set (AList.delete k' m) \<longleftrightarrow> (k, v) \<in> set m \<and> k \<noteq> k'"
  by (auto simp: AList.delete_eq)

lemma discard_fold:
  "(k, st) \<in> set (foldl (\<lambda>m (strokeId, st'). if authorId st' = uid then AList.delete strokeId m else m)
                    m xs)
   \<Longrightarrow> (k, st) \<in> set m \<and> (\<forall>(k', st') \<in> set xs. authorId st' = uid \<longrightarrow> k' \<noteq> k)"
proof (induction xs arbitrary: m)
  case Nil
  then show ?case by simp
next
  case (Cons p xs)
  obtain k0 st0 where p: "p = (k0, st0)" by (cases p)
  let ?m1 = "if authorId st0 = uid then AList.delete k0 m else m"
  from Cons.prems p
  have "(k, st) \<in> set ?m1 \<and> (\<forall>(k', st') \<in> set xs. authorId st' = uid \<longrightarrow> k' \<noteq> k)"
    using Cons.IH [of ?m1] by simp
  then show ?case
    by (auto simp: p set_delete_iff split: if_splits)
qed

lemma discard_strokes_none_left:
  assumes "(k, st) \<in> set (discard_strokes (Some u) roomFlights)"
  shows "authorId st \<noteq> id_user u" and "(k, st) \<in> set roomFlights"
proof -
  from assms discard_fold [of k st "id_user u" roomFlights roomFlights]
  have a: "(k, st) \<in> set roomFlights"
    and b: "\<forall>(k', st') \<in> set roomFlights. authorId st' = id_user u \<longrightarrow> k' \<noteq> k"
    by (simp_all add: discard_strokes_def)
  from a show "(k, st) \<in> set roomFlights" .
  from a b show "authorId st \<noteq> id_user u" by blast
qed

lemma on_disconnect_joined:
  assumes "currentRoom c = Some r" "r \<noteq> []" "map_of (rooms s) r = Some room"
  shows "on_disconnect c s =
     (if isEmpty (snd (removeUser (socket_id c) room))
      then s\<lparr>rooms := AList.delete r (AList.update r (snd (removeUser (socket_id c) room)) (rooms s)),
             inFlightStrokes :=
               AList.delete r
                 (AList.update r
                    (discard_strokes (map_of (users room) (socket_id c))
                       (fst (getInFlightForRoom r (inFlightStrokes s))))
                    (inFlightStrokes s))\<rparr>
      else s\<lparr>rooms := AList.update r (snd (removeUser (socket_id c) room)) (rooms s),
             inFlightStrokes :=
               AList.update r
                 (discard_strokes (map_of (users room) (socket_id c))
                    (fst (getInFlightForRoom r (inFlightStrokes s))))
                 (inFlightStrokes s)\<rparr>,
      case map_of (users room) (socket_id c) of
        None \<Rightarrow> []
      | Some u \<Rightarrow> [(ToOthers r (socket_id c), User_left (id_user u))])"
  using assms
  by (simp add: on_disconnect_def guard_room_def getOrCreateRoom_def split_beta Let_def
      inflight_snd_update removeUser_def deleteRoom_def)

text \<open>
  Claim C8, as the source has it. A connection joined to the room \<open>r\<close>, registered as
  the user \<open>u\<close> there, disconnects. Afterwards no stroke of the room's in-flight table has
  the author id of \<open>u\<close>. If the room still has a user, it stays in the registry with
  the drawing state it had, command log included; if \<open>u\<close> was its last user, the room and
  its in-flight table are deleted. Every other room is as before.
\<close>

theorem disconnect_cleanup:
  assumes "currentRoom c = Some r" and "r \<noteq> []"
    and "map_of (rooms s) r = Some room"
    and "map_of (users room) (socket_id c) = Some u"
  shows "(\<forall>k st. (k, st) \<in> set (fst (getInFlightForRoom r (inFlightStrokes (fst (on_disconnect c s)))))
            \<longrightarrow> authorId st \<noteq> id_user u)
     \<and> (\<not> isEmpty (snd (removeUser (socket_id c) room)) \<longrightarrow>
          (\<exists>room'. map_of (rooms (fst (on_disconnect c s))) r = Some room'
             \<and> drawingState room' = drawingState room
             \<and> users room' = AList.delete (socket_id c) (users room)))
     \<and> (isEmpty (snd (removeUser (socket_id c) room)) \<longrightarrow>
          map_of (rooms (fst (on_disconnect c s))) r = None
          \<and> map_of (inFlightStrokes (fst (on_disconnect c s))) r = None)
     \<and> (r' \<noteq> r \<longrightarrow> map_of (rooms (fst (on_disconnect c s))) r' = map_of (rooms s) r')"
proof -
  note d = on_disconnect_joined [OF assms(1-3)]
  let ?s' = "fst (on_disconnect c s)"
  let ?fl = "discard_strokes (Some u) (fst (getInFlightForRoom r (inFlightStrokes s)))"
  have a: "\<forall>k st. (k, st) \<in> set (fst (getInFlightForRoom r (inFlightStrokes ?s'))) \<longrightarrow>
             authorId st \<noteq> id_user u"
  proof (cases "isEmpty (snd (removeUser (socket_id c) room))")
    case True
    then have "fst (getInFlightForRoom r (inFlightStrokes ?s')) = []"
      by (simp add: d getInFlightForRoom_def delete_conv')
    then show ?thesis by simp
  next
    case False
    then have "fst (getInFlightForRoom r (inFlightStrokes ?s')) = ?fl"
      by (simp add: d assms(4) inflight_of_update)
    then show ?thesis using discard_strokes_none_left(1) by auto
  qed
  have b: "\<not> isEmpty (snd (removeUser (socket_id c) room)) \<longrightarrow>
          (\<exists>room'. map_of (rooms ?s') r = Some room'
             \<and> drawingState room' = drawingState room
             \<and> users room' = AList.delete (socket_id c) (users room))"
    by (simp add: d update_conv' removeUser_def)
  have c: "isEmpty (snd (removeUser (socket_id c) room)) \<longrightarrow>
          map_of (rooms ?s') r = None \<and> map_of (inFlightStrokes ?s') r = None"
    by (simp add: d delete_conv')
  have e: "r' \<noteq> r \<longrightarrow> map_of (rooms ?s') r' = map_of (rooms s) r'"
    by (simp add: d delete_conv' update_conv')
  from a b c e show ?thesis by blast
qed


theorem disconnect_cleanup_witness:
  "currentRoom (fst ex_join1) = Some ''r1'' \<and> ''r1'' \<noteq> []
   \<and> map_of (rooms ex_two_users) ''r1'' = Some (fst (getOrCreateRoom ''r1'' (rooms ex_two_users)))
   \<and> map_of (users (fst (getOrCreateRoom ''r1'' (rooms ex_two_users)))) (socket_id (fst ex_join1))
        = Some \<lparr>id_user = ''u1'', name = ''Ann'', color_user = ''#e74c3c'', socketId = ''s1''\<rparr>
   \<and> (''m'', \<lparr>points = [\<lparr>x = 5, y = 5\<rparr>], color = ''#000000'', width = 2, tool = ''brush'',
               authorId = ''u1'', authorName = ''Ann'', authorColor = ''#e74c3c''\<rparr>)
        \<in> set (fst (getInFlightForRoom ''r1'' (inFlightStrokes ex_two_users)))
   \<and> (''m'', \<lparr>points = [\<lparr>x = 5, y = 5\<rparr>], color = ''#000000'', width = 2, tool = ''brush'',
               authorId = ''u1'', authorName = ''Ann'', authorColor = ''#e74c3c''\<rparr>)
        \<notin> set (fst (getInFlightForRoom ''r1''
                 (inFlightStrokes (fst (on_disconnect (fst ex_join1) ex_two_users)))))
   \<and> map_option drawingState (map_of (rooms (fst (on_disconnect (fst ex_join1) ex_two_users))) ''r1'')
        = Some (drawingState (fst (getOrCreateRoom ''r1'' (rooms ex_two_users))))"
proof -
  let ?u = "\<lparr>id_user = ''u1'', name = ''Ann'', color_user = ''#e74c3c'', socketId = ''s1''\<rparr>"
  let ?room = "fst (getOrCreateRoom ''r1'' (rooms ex_two_users))"
  let ?m = "\<lparr>points = [\<lparr>x = 5, y = 5\<rparr>], color = ''#000000'', width = 2, tool = ''brush'',
              authorId = ''u1'', authorName = ''Ann'', authorColor = ''#e74c3c''\<rparr>"
  have h1: "currentRoom (fst ex_join1) = Some ''r1''" by (simp add: ex_join1_value)
  have h2: "''r1'' \<noteq> []" by simp
  have h3: "map_of (rooms ex_two_users) ''r1'' = Some ?room"
    by (simp add: ex_two_users_value getOrCreateRoom_def)
  have h4: "map_of (users ?room) (socket_id (fst ex_join1)) = Some ?u"
    by (simp add: ex_two_users_value ex_join1_value getOrCreateRoom_def)
  have before: "(''m'', ?m) \<in> set (fst (getInFlightForRoom ''r1'' (inFlightStrokes ex_two_users)))"
    by (simp add: ex_two_users_value getInFlightForRoom_def)
  have stays: "\<not> isEmpty (snd (removeUser (socket_id (fst ex_join1)) ?room))"
    by (simp add: ex_two_users_value ex_join1_value getOrCreateRoom_def removeUser_def isEmpty_def)
  note T = disconnect_cleanup [OF h1 h2 h3 h4]
  from T have "(''m'', ?m) \<in> set (fst (getInFlightForRoom ''r1''
                 (inFlightStrokes (fst (on_disconnect (fst ex_join1) ex_two_users)))))
               \<longrightarrow> authorId ?m \<noteq> id_user ?u"
    by blast
  then have gone: "(''m'', ?m) \<notin> set (fst (getInFlightForRoom ''r1''
                 (inFlightStrokes (fst (on_disconnect (fst ex_join1) ex_two_users)))))"
    by auto
  from T stays have "\<exists>room'. map_of (rooms (fst (on_disconnect (fst ex_join1) ex_two_users))) ''r1''
                        = Some room' \<and> drawingState room' = drawingState ?room"
    by blast
  then have log: "map_option drawingState
        (map_of (rooms (fst (on_disconnect (fst ex_join1) ex_two_users))) ''r1'')
        = Some (drawingState ?room)"
    by auto
  from h1 h2 h3 h4 before gone log show ?thesis by blast
qed

text \<open>
  Claim C8 as stated fails where the departing user is the last one: the room \<open>r1\<close>
  with the committed stroke \<open>k\<close> of that user is deleted, and the log that the registry
  gives for \<open>r1\<close> afterwards is empty.
\<close>

theorem disconnect_last_user_counterexample:
  "map fst (users (fst (getOrCreateRoom ''r1'' (rooms ex_committed)))) = [''s1'']
   \<and> map id_cmd (commandLog (drawingState (fst (getOrCreateRoom ''r1'' (rooms ex_committed)))))
       = [''k'']
   \<and> map authorId (commandLog (drawingState (fst (getOrCreateRoom ''r1'' (rooms ex_committed)))))
       = [''u1'']
   \<and> rooms (fst (on_disconnect (fst ex_join1) ex_committed)) = []
   \<and> commandLog (drawingState (fst (getOrCreateRoom ''r1''
        (rooms (fst (on_disconnect (fst ex_join1) ex_committed)))))) = []"
  by (simp add: ex_committed_value ex_join1_value handler_defs Let_def)

end
